theory Spec2Isabelle
  imports Complex_Main "HOL-Library.Word" "HOL-Library.Signed_Division"
begin

unbundle bit_operations_syntax

section \<open>The packed bit array of bitarray.c\<close>

text \<open>
  \<^verbatim>\<open>struct bitarray { size_t bit_sz; char* buf; }\<close>. A \<^verbatim>\<open>size_t\<close> is a 64-bit word, an
  \<^verbatim>\<open>ssize_t\<close> a 64-bit word read with \<open>sint\<close>, a \<^verbatim>\<open>char\<close> an 8-bit word, an \<^verbatim>\<open>int\<close> a
  32-bit word. The buffer is the list of the bytes that \<^verbatim>\<open>calloc\<close> handed out; bit
  \<open>i\<close> lives in byte \<open>i / 8\<close> at position \<open>i % 8\<close>, counted from the least
  significant bit.
\<close>

record bitarray =
  bit_sz :: "64 word"
  buf :: "8 word list"

text \<open>
  What stops a call: a failed \<^verbatim>\<open>assert\<close> (the program aborts), a read of \<^verbatim>\<open>buf\<close>
  outside the allocated bytes (the value read is not determined by the bit array), and
  an overflow of the signed sum in \<^verbatim>\<open>modulo\<close>. In \<^verbatim>\<open>bitarray_set\<close> and
  \<^verbatim>\<open>reverse_byte\<close> every store to \<^verbatim>\<open>buf\<close> follows a read of the same byte, so that
  \<open>buf_write\<close> never stops a call that its reads let through.
\<close>

datatype error = AssertionFailed | OutOfBounds | SignedOverflow

definition buf_read :: "bitarray \<Rightarrow> 64 word \<Rightarrow> error + 8 word" where
  "buf_read ba k =
     (if unat k < length (buf ba) then Inr (buf ba ! unat k) else Inl OutOfBounds)"

definition buf_write :: "bitarray \<Rightarrow> 64 word \<Rightarrow> 8 word \<Rightarrow> error + bitarray" where
  "buf_write ba k v =
     (if unat k < length (buf ba) then Inr (ba\<lparr>buf := (buf ba)[unat k := v]\<rparr>)
      else Inl OutOfBounds)"

text \<open>\<^verbatim>\<open>static char bitmask(const size_t bit_index) { return 1 << (bit_index % 8); }\<close>\<close>

definition bitmask :: "64 word \<Rightarrow> 8 word" where
  "bitmask bit_index = push_bit (unat (bit_index mod 8)) 1"

text \<open>
  \<^verbatim>\<open>bitarray_new\<close>: \<^verbatim>\<open>calloc(1, (bit_sz+7) / 8)\<close>, then \<^verbatim>\<open>malloc\<close> of the struct; either
  may fail, and then the result is \<^verbatim>\<open>NULL\<close>. Whether the two allocations succeed is
  an input of the model. The sum \<open>bit_sz + 7\<close> is \<^verbatim>\<open>size_t\<close> arithmetic and wraps.
\<close>

definition bitarray_new :: "bool \<Rightarrow> bool \<Rightarrow> 64 word \<Rightarrow> bitarray option" where
  "bitarray_new calloc_ok malloc_ok n =
     (if \<not> calloc_ok then None
      else if \<not> malloc_ok then None
      else Some \<lparr>bit_sz = n, buf = replicate (unat ((n + 7) div 8)) 0\<rparr>)"


text \<open>
  \<^verbatim>\<open>bitarray_get\<close> and \<^verbatim>\<open>bitarray_set\<close>. In C the operands of \<^verbatim>\<open>&\<close>, \<^verbatim>\<open>|\<close> and \<^verbatim>\<open>~\<close>
  are promoted to \<^verbatim>\<open>int\<close> and the result is cut back to a \<^verbatim>\<open>char\<close>; on the low eight
  bits this is the bytewise operation, whatever the signedness of \<^verbatim>\<open>char\<close>.
\<close>

definition bitarray_get :: "bitarray \<Rightarrow> 64 word \<Rightarrow> error + bool" where
  "bitarray_get ba bit_index =
     (if \<not> bit_index < bit_sz ba then Inl AssertionFailed
      else case buf_read ba (bit_index div 8) of
        Inl e \<Rightarrow> Inl e
      | Inr b \<Rightarrow> Inr (b AND bitmask bit_index \<noteq> 0))"

definition bitarray_set :: "bitarray \<Rightarrow> 64 word \<Rightarrow> bool \<Rightarrow> error + bitarray" where
  "bitarray_set ba bit_index v =
     (if \<not> bit_index < bit_sz ba then Inl AssertionFailed
      else case buf_read ba (bit_index div 8) of
        Inl e \<Rightarrow> Inl e
      | Inr b \<Rightarrow>
          buf_write ba (bit_index div 8)
            ((b AND NOT (bitmask bit_index)) OR (if v then bitmask bit_index else 0)))"





text \<open>
  \<^verbatim>\<open>reverse_short\<close>: the byte of \<open>left\<close> is read once; the loop then writes, for each
  pair \<open>i < j\<close>, the saved bit \<open>i\<close> to position \<open>i\<close> and the same saved bit \<open>i\<close> to
  position \<open>j\<close> (both reads of the source are \<^verbatim>\<open>byte & bitmask(i)\<close>).
\<close>

function reverse_short_loop ::
    "8 word \<Rightarrow> bitarray \<Rightarrow> 64 word \<Rightarrow> 64 word \<Rightarrow> error + bitarray" where
  "reverse_short_loop byte ba i j =
     (if i < j
      then let tmp = (byte AND bitmask i \<noteq> 0) in
           case bitarray_set ba i (byte AND bitmask i \<noteq> 0) of
             Inl e \<Rightarrow> Inl e
           | Inr ba1 \<Rightarrow>
               (case bitarray_set ba1 j tmp of
                  Inl e \<Rightarrow> Inl e
                | Inr ba2 \<Rightarrow> reverse_short_loop byte ba2 (i + 1) (j - 1))
      else Inr ba)"
  by pat_completeness auto
termination
proof (relation "measure (\<lambda>(byte, ba, i, j). unat j - unat i)")
  show "wf (measure (\<lambda>(byte, ba, i, j). unat j - unat i))"
    by simp
next
  fix byte :: "8 word" and ba ba1 ba2 :: bitarray and i j :: "64 word" and tmp :: bool
  assume "i < j"
  then have lt: "unat i < unat j"
    by (simp add: word_less_nat_alt)
  have "unat i + 1 < 2 ^ 64"
    using lt unsigned_less [of j, where 'a = nat] by simp
  then have i1: "unat (i + 1) = unat i + 1"
    by (simp add: unat_word_ariths)
  have "j \<noteq> 0"
    using \<open>i < j\<close> by auto
  then have j1: "unat (j - 1) = unat j - 1"
    by (simp add: unat_minus_one)
  show "((byte, ba2, i + 1, j - 1), (byte, ba, i, j))
          \<in> measure (\<lambda>(byte, ba, i, j). unat j - unat i)"
    using lt i1 j1 by simp
qed

definition reverse_short :: "bitarray \<Rightarrow> 64 word \<Rightarrow> 64 word \<Rightarrow> error + bitarray" where
  "reverse_short ba left right =
     (case buf_read ba (drop_bit 3 left) of
        Inl e \<Rightarrow> Inl e
      | Inr byte \<Rightarrow> reverse_short_loop byte ba left right)"

text \<open>
  \<^verbatim>\<open>reverse_byte\<close>: swaps the bytes \<open>i\<close> and \<open>j\<close> from the outside in and calls
  \<^verbatim>\<open>reverse_short\<close> on the eight bits of each; \<open>8*i\<close> and \<open>8*i+7\<close> are \<^verbatim>\<open>size_t\<close>
  arithmetic.
\<close>

function reverse_byte :: "bitarray \<Rightarrow> 64 word \<Rightarrow> 64 word \<Rightarrow> error + bitarray" where
  "reverse_byte ba i j =
     (if i < j
      then case buf_read ba i of
             Inl e \<Rightarrow> Inl e
           | Inr tmp \<Rightarrow>
               (case buf_read ba j of
                  Inl e \<Rightarrow> Inl e
                | Inr bj \<Rightarrow>
                    (case buf_write ba i bj of
                       Inl e \<Rightarrow> Inl e
                     | Inr ba1 \<Rightarrow>
                         (case buf_write ba1 j tmp of
                            Inl e \<Rightarrow> Inl e
                          | Inr ba2 \<Rightarrow>
                              (case reverse_short ba2 (8 * i) (8 * i + 7) of
                                 Inl e \<Rightarrow> Inl e
                               | Inr ba3 \<Rightarrow>
                                   (case reverse_short ba3 (8 * j) (8 * j + 7) of
                                      Inl e \<Rightarrow> Inl e
                                    | Inr ba4 \<Rightarrow> reverse_byte ba4 (i + 1) (j - 1))))))
      else Inr ba)"
  by pat_completeness auto
termination
proof (relation "measure (\<lambda>(ba, i, j). unat j - unat i)")
  show "wf (measure (\<lambda>(ba, i, j). unat j - unat i))"
    by simp
next
  fix ba ba4 :: bitarray and i j :: "64 word"
  assume "i < j"
  then have lt: "unat i < unat j"
    by (simp add: word_less_nat_alt)
  have "unat i + 1 < 2 ^ 64"
    using lt unsigned_less [of j, where 'a = nat] by simp
  then have i1: "unat (i + 1) = unat i + 1"
    by (simp add: unat_word_ariths)
  have "j \<noteq> 0"
    using \<open>i < j\<close> by auto
  then have j1: "unat (j - 1) = unat j - 1"
    by (simp add: unat_minus_one)
  show "((ba4, i + 1, j - 1), (ba, i, j)) \<in> measure (\<lambda>(ba, i, j). unat j - unat i)"
    using lt i1 j1 by simp
qed

text \<open>
  \<^verbatim>\<open>reverse\<close>. Its split points are \<^verbatim>\<open>int8_t\<close> variables:
  \<^verbatim>\<open>wholel=((left+7)/8)*8; wholer=right-right%8;\<close> keep the low eight bits of the
  \<^verbatim>\<open>size_t\<close> values. In the calls \<^verbatim>\<open>wholel-1\<close>, \<^verbatim>\<open>wholel/8\<close> and \<^verbatim>\<open>wholer/8-1\<close> are
  \<^verbatim>\<open>int\<close> arithmetic on the sign-extended values (division truncates), and the
  results are converted to \<^verbatim>\<open>size_t\<close>, so that \<open>-1\<close> becomes \<open>2^64 - 1\<close>.
\<close>

definition reverse_wholel :: "64 word \<Rightarrow> 8 word" where
  "reverse_wholel left = ucast (((left + 7) div 8) * 8)"

definition reverse_wholer :: "64 word \<Rightarrow> 8 word" where
  "reverse_wholer right = ucast (right - right mod 8)"

definition int_div :: "32 word \<Rightarrow> 32 word \<Rightarrow> 32 word" where
  "int_div a b = word_of_int (sint a sdiv sint b)"

definition reverse :: "bitarray \<Rightarrow> 64 word \<Rightarrow> 64 word \<Rightarrow> error + bitarray" where
  "reverse ba left right =
     (let wholel = reverse_wholel left;
          wholer = reverse_wholer right
      in case buf_read ba (left div 8) of
           Inl e \<Rightarrow> Inl e
         | Inr byte1 \<Rightarrow>
             (case buf_read ba (right div 8) of
                Inl e \<Rightarrow> Inl e
              | Inr byte2 \<Rightarrow>
                  (case reverse_short ba left (scast ((scast wholel :: 32 word) - 1)) of
                     Inl e \<Rightarrow> Inl e
                   | Inr ba1 \<Rightarrow>
                       (case reverse_short ba1 (scast wholer) right of
                          Inl e \<Rightarrow> Inl e
                        | Inr ba2 \<Rightarrow>
                            reverse_byte ba2
                              (scast (int_div (scast wholel) 8))
                              (scast (int_div (scast wholer) 8 - 1))))))"

text \<open>
  \<^verbatim>\<open>bitarray_rotate_left\<close>: \<open>l\<close>, \<open>m\<close> and \<open>r\<close> are computed first (\<^verbatim>\<open>size_t\<close>
  arithmetic), then the three calls of \<^verbatim>\<open>reverse\<close>.
\<close>

definition bitarray_rotate_left ::
    "bitarray \<Rightarrow> 64 word \<Rightarrow> 64 word \<Rightarrow> 64 word \<Rightarrow> error + bitarray" where
  "bitarray_rotate_left ba bit_offset bit_length bit_left_amount =
     (let l = bit_offset;
          m = bit_offset + bit_left_amount;
          r = bit_offset + bit_length - 1
      in if bit_left_amount = 0 then Inr ba
         else case reverse ba l (m - 1) of
                Inl e \<Rightarrow> Inl e
              | Inr ba1 \<Rightarrow>
                  (case reverse ba1 m r of
                     Inl e \<Rightarrow> Inl e
                   | Inr ba2 \<Rightarrow> reverse ba2 l r))"

text \<open>
  \<^verbatim>\<open>modulo\<close>: \<^verbatim>\<open>signed_m = (ssize_t)m\<close> reads the 64 bits of \<open>m\<close> as signed;
  \<^verbatim>\<open>%\<close> is C's truncating remainder (\<open>smod\<close> on \<open>int\<close>); the sum
  \<^verbatim>\<open>(n % signed_m) + signed_m\<close> is signed arithmetic and must not exceed \<open>2^63 - 1\<close>.
\<close>

definition modulo_c :: "64 word \<Rightarrow> 64 word \<Rightarrow> error + 64 word" where
  "modulo_c n m =
     (let signed_m = sint m
      in if \<not> 0 < signed_m then Inl AssertionFailed
         else let s = (sint n smod signed_m) + signed_m
              in if 2 ^ 63 - 1 < s then Inl SignedOverflow
                 else let result = s smod signed_m
                      in if \<not> 0 \<le> result then Inl AssertionFailed
                         else Inr (word_of_int result))"

text \<open>
  \<^verbatim>\<open>bitarray_rotate\<close>: the assertion adds in \<^verbatim>\<open>size_t\<close>; \<^verbatim>\<open>modulo\<close> is called before
  the test of \<^verbatim>\<open>bit_length == 0\<close>; its result is stored in an \<^verbatim>\<open>int\<close> (the low 32
  bits) and passed on as a \<^verbatim>\<open>size_t\<close> (sign-extended). The negation
  \<^verbatim>\<open>-bit_right_amount\<close> is the two's complement one: the least \<^verbatim>\<open>ssize_t\<close> is its
  own negative, and the call goes on with it.
\<close>

definition bitarray_rotate ::
    "bitarray \<Rightarrow> 64 word \<Rightarrow> 64 word \<Rightarrow> 64 word \<Rightarrow> error + bitarray" where
  "bitarray_rotate ba bit_offset bit_length bit_right_amount =
     (if \<not> bit_offset + bit_length \<le> bit_sz ba then Inl AssertionFailed
      else case modulo_c (- bit_right_amount) bit_length of
             Inl e \<Rightarrow> Inl e
           | Inr r \<Rightarrow>
               (let bit_left_amount = (ucast r :: 32 word)
                in if bit_length = 0 \<or> bit_left_amount = 0 then Inr ba
                   else bitarray_rotate_left ba bit_offset bit_length (scast bit_left_amount)))"

declare reverse_short_loop.simps [simp del]
declare reverse_byte.simps [simp del]

section \<open>The data model and the split points of the specification\<close>

text \<open>
  The invariant of the data model: the buffer holds \<open>ceil(bit_sz/8)\<close> bytes (the
  comment of \<^verbatim>\<open>bitarray_new\<close>: ``Allocate an underlying buffer of ceil(bit_sz/8)
  bytes'').
\<close>

definition buffer_ok :: "bitarray \<Rightarrow> bool" where
  "buffer_ok ba \<longleftrightarrow> length (buf ba) = (unat (bit_sz ba) + 7) div 8"

text \<open>The specification's split points: \<open>ceil((left+1)/8)*8\<close> and \<open>right - (right % 8) - 1\<close>.\<close>

definition whole_left_spec :: "64 word \<Rightarrow> int" where
  "whole_left_spec left = \<lceil>(of_int (uint left + 1) :: rat) / 8\<rceil> * 8"

definition whole_right_spec :: "64 word \<Rightarrow> int" where
  "whole_right_spec right = uint right - uint right mod 8 - 1"



section \<open>Bit accessors\<close>

lemma bitmask_pow: "bitmask i = 2 ^ unat (i mod 8)"
  by (simp add: bitmask_def)

lemma unat_mod8_less: "unat ((i :: 64 word) mod 8) < 8"
  by (simp add: unat_mod_distrib)

lemma test_bitmask: "(b AND bitmask i \<noteq> 0) = bit (b :: 8 word) (unat (i mod 8))"
  by (simp add: bitmask_pow and_exp_eq_0_iff_not_bit)

lemma bit_bitmask: "bit (bitmask i) k \<longleftrightarrow> k = unat (i mod 8)"
  using unat_mod8_less [of i] by (auto simp add: bitmask_pow bit_exp_iff)

lemma bit_updated:
  "bit ((b AND NOT (bitmask i)) OR (if v then bitmask i else 0)) k
     = (if k = unat (i mod 8) then v else bit (b :: 8 word) k)"
  using unat_mod8_less [of i]
  by (auto simp add: bit_or_iff bit_and_iff bit_not_iff bit_bitmask dest: bit_imp_le_length)

lemma byte_index_in_buffer:
  assumes "buffer_ok ba" and "i < bit_sz ba"
  shows "unat (i div 8) < length (buf ba)"
proof -
  have "unat i < unat (bit_sz ba)"
    using assms(2) by (simp add: word_less_nat_alt)
  moreover have "unat (i div 8) = unat i div 8"
    by (simp add: unat_div_distrib)
  ultimately show ?thesis
    using assms(1) by (simp add: buffer_ok_def)
qed

lemma same_byte_other_bit:
  assumes "(j :: 64 word) \<noteq> i" and "j div 8 = i div 8"
  shows "unat (j mod 8) \<noteq> unat (i mod 8)"
proof
  assume "unat (j mod 8) = unat (i mod 8)"
  then have "j mod 8 = i mod 8"
    by (simp add: word_unat_eq_iff)
  then have "j div 8 * 8 + j mod 8 = i div 8 * 8 + i mod 8"
    using assms(2) by simp
  then show False
    using assms(1) by (simp only: div_mult_mod_eq)
qed

lemma bitarray_new_buffer_ok:
  assumes "n \<le> 2 ^ 64 - 8" and "bitarray_new calloc_ok malloc_ok n = Some ba"
  shows "buffer_ok ba"
proof -
  have "unat n \<le> 2 ^ 64 - 8"
    using assms(1) by (simp add: word_le_nat_alt)
  then have "unat (n + 7) = unat n + 7"
    by (simp add: unat_word_ariths)
  then have "unat ((n + 7) div 8) = (unat n + 7) div 8"
    by (simp add: unat_div_distrib)
  then show ?thesis
    using assms(2) by (auto simp add: bitarray_new_def buffer_ok_def split: if_splits)
qed

lemma bitarray_get_out_of_range:
  "\<not> i < bit_sz ba \<Longrightarrow> bitarray_get ba i = Inl AssertionFailed"
  by (simp add: bitarray_get_def)

lemma bitarray_set_out_of_range:
  "\<not> i < bit_sz ba \<Longrightarrow> bitarray_set ba i v = Inl AssertionFailed"
  by (simp add: bitarray_set_def)

text \<open>
  Claim C7. For a bit array whose buffer holds \<open>ceil(bit_sz/8)\<close> bytes, an index
  \<open>i < bit_sz\<close> and a boolean \<open>v\<close>: \<^verbatim>\<open>bitarray_set\<close> returns, \<^verbatim>\<open>bitarray_get\<close> at \<open>i\<close>
  then returns \<open>v\<close>, and at every other index below \<open>bit_sz\<close> it returns what it
  returned before the set.
\<close>

theorem bitarray_set_then_get:
  assumes ok: "buffer_ok ba" and i: "i < bit_sz ba"
  shows "\<exists>ba'. bitarray_set ba i v = Inr ba' \<and> bitarray_get ba' i = Inr v \<and>
           (\<forall>j. j < bit_sz ba \<and> j \<noteq> i \<longrightarrow> bitarray_get ba' j = bitarray_get ba j)"
proof -
  let ?k = "unat (i div 8)"
  let ?b = "buf ba ! ?k"
  let ?b' = "(?b AND NOT (bitmask i)) OR (if v then bitmask i else 0)"
  let ?ba' = "ba\<lparr>buf := (buf ba)[?k := ?b']\<rparr>"
  have k: "?k < length (buf ba)"
    by (rule byte_index_in_buffer [OF ok i])
  have set: "bitarray_set ba i v = Inr ?ba'"
    using i k by (simp add: bitarray_set_def buf_read_def buf_write_def)
  have get: "bitarray_get ?ba' i = Inr v"
    using i k by (simp add: bitarray_get_def buf_read_def test_bitmask bit_updated del: bit_or_iff)
  have others: "bitarray_get ?ba' j = bitarray_get ba j" if j: "j < bit_sz ba" "j \<noteq> i" for j
  proof (cases "j div 8 = i div 8")
    case True
    have "unat (j mod 8) \<noteq> unat (i mod 8)"
      by (rule same_byte_other_bit [OF j(2) True])
    then show ?thesis
      using j(1) k True
      by (simp add: bitarray_get_def buf_read_def test_bitmask bit_updated)
  next
    case False
    then have "unat (j div 8) \<noteq> ?k"
      by (simp add: word_unat_eq_iff)
    then show ?thesis
      using j(1) by (simp add: bitarray_get_def buf_read_def)
  qed
  show ?thesis
    using set get others by blast
qed

theorem bitarray_set_then_get_witness:
  "buffer_ok \<lparr>bit_sz = 10, buf = [75, 3]\<rparr> \<and>
   (9 :: 64 word) < bit_sz \<lparr>bit_sz = 10, buf = [75, 3]\<rparr> \<and>
   bitarray_set \<lparr>bit_sz = 10, buf = [75, 3]\<rparr> 9 False = Inr \<lparr>bit_sz = 10, buf = [75, 1]\<rparr> \<and>
   bitarray_get \<lparr>bit_sz = 10, buf = [75, 1]\<rparr> 9 = Inr False \<and>
   bitarray_get \<lparr>bit_sz = 10, buf = [75, 1]\<rparr> 8 = bitarray_get \<lparr>bit_sz = 10, buf = [75, 3]\<rparr> 8"
proof -
  let ?ba = "\<lparr>bit_sz = 10, buf = [75, 3]\<rparr>"
  have ok: "buffer_ok ?ba"
    by (simp add: buffer_ok_def)
  have i: "(9 :: 64 word) < bit_sz ?ba"
    by simp
  have run: "bitarray_set ?ba 9 False = Inr \<lparr>bit_sz = 10, buf = [75, 1]\<rparr>"
    by code_simp
  obtain ba' where
    "bitarray_set ?ba 9 False = Inr ba'" and
    get: "bitarray_get ba' 9 = Inr False" and
    others: "\<forall>j. j < bit_sz ?ba \<and> j \<noteq> 9 \<longrightarrow> bitarray_get ba' j = bitarray_get ?ba j"
    using bitarray_set_then_get [OF ok i, of False] by blast
  then have ba': "ba' = \<lparr>bit_sz = 10, buf = [75, 1]\<rparr>"
    using run by simp
  have "bitarray_get ba' 8 = bitarray_get ?ba 8"
    using others by simp
  then show ?thesis
    using ok i run get by (simp only: ba')
qed

section \<open>The modulo helper\<close>

lemma smod_plus_smod:
  fixes a M :: int
  assumes "0 < M"
  shows "0 \<le> a smod M + M" and "(a smod M + M) smod M = a mod M"
proof -
  have eq: "a smod M = a mod M - M * of_bool (sgn a \<noteq> sgn M \<and> \<not> M dvd a)"
    by (rule signed_modulo_int_eq_modulo_int)
  have nonneg: "0 \<le> a mod M"
    using assms by simp
  show ge: "0 \<le> a smod M + M"
    using eq nonneg assms by (cases "sgn a \<noteq> sgn M \<and> \<not> M dvd a") simp_all
  have "(a smod M + M) smod M = (a smod M + M) mod M"
    using ge assms by (simp add: smod_mod_positive)
  also have "\<dots> = a mod M"
    using eq by (cases "sgn a \<noteq> sgn M \<and> \<not> M dvd a") simp_all
  finally show "(a smod M + M) smod M = a mod M" .
qed

lemma sint_pos_uint:
  fixes m :: "64 word"
  assumes "0 \<le> sint m"
  shows "uint m = sint m"
proof -
  have "sint m < 2 ^ 64"
    using sint_lt [of m] by simp
  then have "take_bit 64 (sint m) = sint m"
    using assms by (simp add: take_bit_int_eq_self)
  then show ?thesis
    by (simp add: uint_sint)
qed

lemma modulo_c_value:
  assumes m: "0 < sint m" and no_overflow: "sint n smod sint m + sint m \<le> 2 ^ 63 - 1"
  shows "modulo_c n m = Inr (word_of_int (sint n mod sint m))"
proof -
  have res: "(sint n smod sint m + sint m) smod sint m = sint n mod sint m"
    by (rule smod_plus_smod(2) [OF m])
  have "0 \<le> sint n mod sint m"
    using m by simp
  then show ?thesis
    using m no_overflow by (simp add: modulo_c_def Let_def res)
qed

lemma modulo_small_divisor_no_overflow:
  assumes "0 < sint m" and "sint m \<le> 2 ^ 62"
  shows "sint n smod sint m + sint m \<le> 2 ^ 63 - 1"
proof -
  have "sint n smod sint m \<in> {- \<bar>sint m\<bar> + 1..\<bar>sint m\<bar> - 1}"
    using assms(1) by (intro smod_int_range) simp
  then show ?thesis
    using assms by simp
qed

text \<open>
  Claim C6, amended. For every dividend \<open>n\<close> and every divisor \<open>m\<close> that is positive
  as an \<^verbatim>\<open>ssize_t\<close>, when the sum \<^verbatim>\<open>(n % signed_m) + signed_m\<close> stays within
  \<^verbatim>\<open>ssize_t\<close>: \<^verbatim>\<open>modulo\<close> returns, and its result \<open>r\<close> is below \<open>m\<close>, congruent to
  \<open>n\<close> modulo \<open>m\<close>, and equal to the mathematical (never negative) \<open>n mod m\<close>.
\<close>

theorem modulo_mathematical:
  assumes m: "0 < sint m" and no_overflow: "sint n smod sint m + sint m \<le> 2 ^ 63 - 1"
  shows "\<exists>r. modulo_c n m = Inr r \<and> r < m \<and> uint m dvd sint n - uint r \<and>
           uint r = sint n mod uint m"
proof -
  let ?M = "sint m"
  let ?r = "sint n mod ?M"
  have um: "uint m = ?M"
    using m by (simp add: sint_pos_uint)
  have r0: "0 \<le> ?r" and rM: "?r < ?M"
    using m by simp_all
  have "?M < 2 ^ 63"
    using sint_lt [of m] by simp
  then have "?r < 2 ^ 64"
    using rM by simp
  then have ur: "uint (word_of_int ?r :: 64 word) = ?r"
    using r0 by (simp add: uint_word_of_int)
  have run: "modulo_c n m = Inr (word_of_int ?r)"
    by (rule modulo_c_value [OF m no_overflow])
  have "(word_of_int ?r :: 64 word) < m"
    using ur um rM by (simp add: word_less_def)
  moreover have "uint m dvd sint n - uint (word_of_int ?r :: 64 word)"
    by (simp only: ur um) (simp add: dvd_minus_mod)
  moreover have "uint (word_of_int ?r :: 64 word) = sint n mod uint m"
    by (simp only: ur um)
  ultimately show ?thesis
    using run by blast
qed

theorem modulo_mathematical_witness:
  "0 < sint (10 :: 64 word) \<and> sint (- 1 :: 64 word) = - 1 \<and> modulo_c (- 1) 10 = Inr 9"
proof -
  have h1: "0 < sint (10 :: 64 word)"
    by simp
  have h2: "sint (- 1 :: 64 word) smod sint (10 :: 64 word) + sint (10 :: 64 word) \<le> 2 ^ 63 - 1"
    by (simp add: signed_modulo_int_def)
  obtain r where run: "modulo_c (- 1) 10 = Inr r" and
    "uint r = sint (- 1 :: 64 word) mod uint (10 :: 64 word)"
    using modulo_mathematical [OF h1 h2] by blast
  then have "uint r = uint (9 :: 64 word)"
    by simp
  then have "r = 9"
    by (simp only: word_uint_eq_iff)
  then show ?thesis
    using run by simp
qed

text \<open>
  Claim C6 as stated fails for a divisor that is positive only as an unsigned value:
  with \<open>m = 2^63\<close> the conversion to \<^verbatim>\<open>ssize_t\<close> is negative and
  \<^verbatim>\<open>assert(signed_m > 0)\<close> stops the call.
\<close>

theorem modulo_huge_divisor_counterexample:
  "(0 :: 64 word) < 2 ^ 63 \<and> modulo_c 0 (2 ^ 63) = Inl AssertionFailed"
  by (simp add: modulo_c_def)

section \<open>Rotation\<close>

lemma bitarray_rotate_out_of_range:
  "\<not> bit_offset + bit_length \<le> bit_sz ba \<Longrightarrow>
     bitarray_rotate ba bit_offset bit_length k = Inl AssertionFailed"
  by (simp add: bitarray_rotate_def)

lemma minus_least_ssize:
  fixes k :: "64 word"
  assumes "sint k = - (2 ^ 63)"
  shows "- k = k"
proof -
  have "k = word_of_int (sint k)"
    by simp
  then have "k = word_of_int (- (2 ^ 63))"
    by (simp only: assms)
  then have k: "k = - (2 ^ 63)"
    by simp
  have "(2 ^ 63 :: 64 word) + 2 ^ 63 = 0"
    by simp
  then have "- (- (2 ^ 63) :: 64 word) = - (2 ^ 63)"
    by (simp add: eq_neg_iff_add_eq_0)
  then show ?thesis
    by (simp only: k)
qed

lemma dvd_sint_minus:
  fixes k :: "64 word"
  assumes "M dvd sint k"
  shows "M dvd sint (- k)"
proof (cases "sint k = - (2 ^ 63)")
  case True
  then show ?thesis
    using assms by (simp only: minus_least_ssize)
next
  case False
  then have "- (2 ^ 63) < sint k" "sint k < 2 ^ 63"
    using sint_ge [of k] sint_lt [of k] by simp_all
  then have "signed_take_bit 63 (- sint k) = - sint k"
    by (intro signed_take_bit_int_eq_self) simp_all
  then have "sint (- k) = - sint k"
    by (simp add: sint_word_ariths)
  then show ?thesis
    using assms by simp
qed

lemma bitarray_rotate_multiple_noop:
  assumes range: "bit_offset + bit_length \<le> bit_sz ba"
    and len: "0 < sint bit_length"
    and mult: "sint bit_length dvd sint k"
  shows "bitarray_rotate ba bit_offset bit_length k = Inr ba"
proof -
  have d: "sint bit_length dvd sint (- k)"
    by (rule dvd_sint_minus [OF mult])
  then have "\<bar>sint bit_length\<bar> dvd \<bar>sint (- k)\<bar>"
    by simp
  then have "\<bar>sint (- k)\<bar> mod \<bar>sint bit_length\<bar> = 0"
    by (rule dvd_imp_mod_0)
  then have z: "sint (- k) smod sint bit_length = 0"
    by (simp only: signed_modulo_int_def mult_zero_right)
  have "sint bit_length \<le> 2 ^ 63 - 1"
    using sint_lt [of bit_length] by simp
  then have "modulo_c (- k) bit_length = Inr (word_of_int (sint (- k) mod sint bit_length))"
    by (intro modulo_c_value [OF len]) (simp add: z)
  then have "modulo_c (- k) bit_length = Inr 0"
    using d by (simp add: dvd_eq_mod_eq_0)
  then show ?thesis
    using range by (simp add: bitarray_rotate_def)
qed

text \<open>
  Claim C5 at \<^verbatim>\<open>bit_length == 0\<close>: \<^verbatim>\<open>modulo\<close> is called with divisor 0 before the
  test of the length, and its assertion \<^verbatim>\<open>signed_m > 0\<close> fails; the call is not a
  no-op that returns.
\<close>

theorem rotate_zero_length_aborts:
  "bitarray_rotate \<lparr>bit_sz = 8, buf = [75]\<rparr> 0 0 0 = Inl AssertionFailed"
  by code_simp

text \<open>
  Claim C9 for \<^verbatim>\<open>bitarray_rotate\<close>: with \<open>bit_offset = 2^64 - 1\<close> and
  \<open>bit_length = 1\<close> the range ends beyond the 8 bits of the array, but the sum of the
  assertion wraps to 0 and the call returns.
\<close>

theorem rotate_out_of_range_returns:
  "uint (bit_sz \<lparr>bit_sz = 8, buf = [75]\<rparr>) < uint (- 1 :: 64 word) + uint (1 :: 64 word) \<and>
   bitarray_rotate \<lparr>bit_sz = 8, buf = [75]\<rparr> (- 1) 1 0 = Inr \<lparr>bit_sz = 8, buf = [75]\<rparr>"
proof -
  have beyond: "uint (bit_sz \<lparr>bit_sz = 8, buf = [75]\<rparr>) < uint (- 1 :: 64 word) + uint (1 :: 64 word)"
    by (simp add: unsigned_minus_1_eq_mask mask_eq_exp_minus_1)
  have run: "bitarray_rotate \<lparr>bit_sz = 8, buf = [75]\<rparr> (- 1) 1 0 = Inr \<lparr>bit_sz = 8, buf = [75]\<rparr>"
    by code_simp
  show ?thesis
    using beyond run by (rule conjI)
qed

text \<open>
  Claim C1 at a 16-bit array with only bit 1 set, rotated right by 7 over the range
  \<open>[1, 16)\<close>: the call returns, but the bit of range position 0 (index 1) is not at range
  position 7 (index 8) afterwards; it is still at index 1 and a copy of it is at index 7.
\<close>

theorem rotate_not_cyclic_shift:
  "bitarray_rotate \<lparr>bit_sz = 16, buf = [2, 0]\<rparr> 1 15 7 = Inr \<lparr>bit_sz = 16, buf = [130, 0]\<rparr> \<and>
   bitarray_get \<lparr>bit_sz = 16, buf = [2, 0]\<rparr> 1 = Inr True \<and>
   bitarray_get \<lparr>bit_sz = 16, buf = [130, 0]\<rparr> 8 = Inr False \<and>
   bitarray_get \<lparr>bit_sz = 16, buf = [130, 0]\<rparr> 7 = Inr True"
  by code_simp

text \<open>
  Claim C2: the 10-bit array 1101001011 (bytes \<open>0x4B, 0x03\<close>), rotated right by 3 over
  \<open>[0, 10)\<close>. The first reversal is \<^verbatim>\<open>reverse(bitarray, 0, 6)\<close>; its first call
  \<^verbatim>\<open>reverse_short(bitarray, 0, wholel-1)\<close> has \<open>wholel = 0\<close>, and setting bit
  \<open>2^64 - 1\<close> fails the assertion of \<^verbatim>\<open>bitarray_set\<close>.
\<close>

theorem rotate_ten_bit_scenario_aborts:
  "bitarray_rotate \<lparr>bit_sz = 10, buf = [75, 3]\<rparr> 0 10 3 = Inl AssertionFailed \<and>
   reverse \<lparr>bit_sz = 10, buf = [75, 3]\<rparr> 0 6 = Inl AssertionFailed \<and>
   reverse_short \<lparr>bit_sz = 10, buf = [75, 3]\<rparr> 0 (- 1) = Inl AssertionFailed"
  by code_simp

section \<open>Reversal\<close>

text \<open>
  Claim C3: the 8-bit array 11010010 (byte \<open>0x4B\<close>), reversed over \<open>[2, 5]\<close>. The two
  calls of \<^verbatim>\<open>reverse_short\<close>, on \<open>[2, 7]\<close> and on \<open>[0, 5]\<close>, leave 11001110 (byte
  \<open>0x73\<close>), which is neither the claim's 11100110 (byte \<open>0x67\<close>) nor the reversal of
  the positions 2 to 5, 11001010 (byte \<open>0x53\<close>), and \<^verbatim>\<open>reverse_byte\<close> is then called
  on the bytes \<open>1\<close> to \<open>2^64 - 1\<close> of a one-byte buffer.
\<close>

theorem reverse_scenario_fails:
  "reverse \<lparr>bit_sz = 8, buf = [75]\<rparr> 2 5 = Inl OutOfBounds \<and>
   reverse_short \<lparr>bit_sz = 8, buf = [75]\<rparr> 2 7 = Inr \<lparr>bit_sz = 8, buf = [75]\<rparr> \<and>
   reverse_short \<lparr>bit_sz = 8, buf = [75]\<rparr> 0 5 = Inr \<lparr>bit_sz = 8, buf = [115]\<rparr> \<and>
   reverse_byte \<lparr>bit_sz = 8, buf = [115]\<rparr> 1 (- 1) = Inl OutOfBounds"
  by code_simp

text \<open>
  Claim C4: a 16-bit array with only bit 1 set, reversed twice over \<open>[1, 14]\<close>. Both
  calls return; the first copies bit 1 onto bit 7, the second changes nothing more, and
  the array is not the original one.
\<close>

theorem reverse_twice_not_identity:
  "reverse \<lparr>bit_sz = 16, buf = [2, 0]\<rparr> 1 14 = Inr \<lparr>bit_sz = 16, buf = [130, 0]\<rparr> \<and>
   reverse \<lparr>bit_sz = 16, buf = [130, 0]\<rparr> 1 14 = Inr \<lparr>bit_sz = 16, buf = [130, 0]\<rparr> \<and>
   \<lparr>bit_sz = 16, buf = [130, 0]\<rparr> \<noteq> \<lparr>bit_sz = (16 :: 64 word), buf = [2, 0 :: 8 word]\<rparr>"
  by code_simp

subsection \<open>The split points\<close>

text \<open>
  Claim C8 at \<open>left = 8\<close>, \<open>right = 23\<close> on a 24-bit array with only bit 8 set (the
  third reversal of a rotation over \<open>[8, 24)\<close>). The claim's left split point is
  \<open>ceil((8+1)/8)*8 = 16\<close>, which makes \<open>[8, 15]\<close> boundary bits to be reversed inside
  byte 1 (bit 8 would move to bit 15), and \<open>[16, 23]\<close> the other boundary. The source
  has \<open>wholel = 8\<close> and \<open>wholer = 16\<close>: \<^verbatim>\<open>reverse_short(bitarray, 8, 7)\<close> and
  \<^verbatim>\<open>reverse_byte(bitarray, 1, 1)\<close> do nothing, \<^verbatim>\<open>reverse_short(bitarray, 16, 23)\<close>
  copies zeros, and the call returns the array as it was: no bit of \<open>[8, 23]\<close> has
  moved.
\<close>

theorem reverse_boundary_bits_not_reversed:
  "whole_left_spec 8 = 16 \<and> whole_right_spec 23 = 15 \<and>
   sint (reverse_wholel 8) = 8 \<and> sint (reverse_wholer 23) = 16 \<and>
   reverse_short \<lparr>bit_sz = 24, buf = [0, 1, 0]\<rparr> 8 7 = Inr \<lparr>bit_sz = 24, buf = [0, 1, 0]\<rparr> \<and>
   reverse_short \<lparr>bit_sz = 24, buf = [0, 1, 0]\<rparr> 16 23 = Inr \<lparr>bit_sz = 24, buf = [0, 1, 0]\<rparr> \<and>
   reverse_byte \<lparr>bit_sz = 24, buf = [0, 1, 0]\<rparr> 1 1 = Inr \<lparr>bit_sz = 24, buf = [0, 1, 0]\<rparr> \<and>
   reverse \<lparr>bit_sz = 24, buf = [0, 1, 0]\<rparr> 8 23 = Inr \<lparr>bit_sz = 24, buf = [0, 1, 0]\<rparr> \<and>
   bitarray_get \<lparr>bit_sz = 24, buf = [0, 1, 0]\<rparr> 8 = Inr True \<and>
   bitarray_get \<lparr>bit_sz = 24, buf = [0, 1, 0]\<rparr> 15 = Inr False \<and>
   bitarray_get \<lparr>bit_sz = 24, buf = [0, 1, 0]\<rparr> 23 = Inr False"
  by code_simp

section \<open>The size of a bit array\<close>















end
